theory Spec2Isabelle
  imports Main "HOL-Library.Multiset" "HOL-Library.Sublist"
begin

section \<open>The ward map script (scripts/ward\_map.py)\<close>

text \<open>
  The script is one straight-line sequence of calls into pandas, GeoPandas, Shapely and
  folium. The embedding has two layers: the library operations the script calls, as pure
  functions on frames, and the script itself, statement by statement, over a store of
  frame objects, so that what is copied and what is changed in place is visible.
\<close>

subsection \<open>Frames\<close>

text \<open>
  A cell of the attribute table: an integer, the missing value \<open>None\<close>, or a value of
  any other kind (text, floating point, date), exactly as the reader produced it.
\<close>

datatype 'a val = Raw 'a | IntV int | NoneV

text \<open>A record of the collection: its attribute values by column name, and its geometry.\<close>

record ('a, 'g) feature =
  attrs :: "string \<rightharpoonup> 'a val"
  geom :: 'g

text \<open>
  A coordinate reference system: built from an EPSG code, or from some other definition,
  for which \<open>to_epsg()\<close> finds a matching code or \<open>None\<close>.
\<close>

datatype crs = EPSG int | OtherCRS string "int option"

fun to_epsg :: "crs \<Rightarrow> int option" where
  "to_epsg (EPSG n) = Some n"
| "to_epsg (OtherCRS d m) = m"

text \<open>
  A GeoDataFrame: the column names in order, the records in order, and the CRS tag
  (\<open>None\<close> when the file carried none). Column names are taken as distinct, and every
  record has a value under every column name.
\<close>

record ('a, 'g) gdf =
  columns :: "string list"
  rows :: "('a, 'g) feature list"
  crs :: "crs option"

datatype error =
    KeyError string
  | TypeCoercionError
  | NaiveGeometryError
  | EmptyCentroidError
  | WriteError string

subsection \<open>Library operations\<close>

definition cell :: "string \<Rightarrow> ('a, 'g) feature \<Rightarrow> 'a val" where
  "cell name r = (case attrs r name of Some v \<Rightarrow> v | None \<Rightarrow> NoneV)"

text \<open>\<open>frame[name]\<close>: the column as a series, or \<open>KeyError\<close>.\<close>

definition getitem :: "string \<Rightarrow> ('a, 'g) gdf \<Rightarrow> error + 'a val list" where
  "getitem name g =
     (if name \<in> set (columns g) then Inr (map (cell name) (rows g)) else Inl (KeyError name))"

text \<open>
  \<open>series.astype(int)\<close>. The conversion of one value that is not yet an integer belongs
  to Python and NumPy and is the parameter \<open>to_int\<close> (\<open>None\<close> where it raises); the
  missing value never converts. The series converts when each of its values does, and the
  call raises otherwise (a \<open>ValueError\<close> or a \<open>TypeError\<close>, depending on the value).
\<close>

fun int_of_val :: "('a \<Rightarrow> int option) \<Rightarrow> 'a val \<Rightarrow> int option" where
  "int_of_val to_int (IntV n) = Some n"
| "int_of_val to_int (Raw a) = to_int a"
| "int_of_val to_int NoneV = None"

fun astype_int :: "('a \<Rightarrow> int option) \<Rightarrow> 'a val list \<Rightarrow> error + int list" where
  "astype_int to_int [] = Inr []"
| "astype_int to_int (v # vs) =
     (case int_of_val to_int v of
        None \<Rightarrow> Inl TypeCoercionError
      | Some n \<Rightarrow>
          (case astype_int to_int vs of
             Inl e \<Rightarrow> Inl e
           | Inr ns \<Rightarrow> Inr (n # ns)))"

text \<open>
  \<open>frame[name] = values\<close>: the column is replaced where it stands, or added as the last
  column; the values go to the records in order.
\<close>

definition setitem :: "string \<Rightarrow> 'a val list \<Rightarrow> ('a, 'g) gdf \<Rightarrow> ('a, 'g) gdf" where
  "setitem name vs g =
     g\<lparr>columns := (if name \<in> set (columns g) then columns g else columns g @ [name]),
       rows := map (\<lambda>(r, v). r\<lparr>attrs := (attrs r)(name \<mapsto> v)\<rparr>) (zip (rows g) vs)\<rparr>"

text \<open>\<open>frame[name] = scalar\<close>: the scalar is given to every record.\<close>

definition setitem_scalar :: "string \<Rightarrow> 'a val \<Rightarrow> ('a, 'g) gdf \<Rightarrow> ('a, 'g) gdf" where
  "setitem_scalar name v g = setitem name (replicate (length (rows g)) v) g"

text \<open>
  \<open>frame.rename(columns={old: new})\<close>: a new frame, the values untouched. A frame that
  already has a column of the new name is not considered.
\<close>

definition rename_columns :: "string \<Rightarrow> string \<Rightarrow> ('a, 'g) gdf \<Rightarrow> ('a, 'g) gdf" where
  "rename_columns old new g =
     g\<lparr>columns := map (\<lambda>c. if c = old then new else c) (columns g),
       rows := map (\<lambda>r. r\<lparr>attrs := (\<lambda>k. if k = new then attrs r old
                                          else if k = old then None
                                          else attrs r k)\<rparr>) (rows g)\<rparr>"

text \<open>
  \<open>series.isin(values)\<close> on one value of an integer series, which is what the column is
  after the coercion of line 20; values of another kind are not met there.
\<close>

definition isin :: "'a val \<Rightarrow> int list \<Rightarrow> bool" where
  "isin v ws = (case v of IntV n \<Rightarrow> n \<in> set ws | _ \<Rightarrow> False)"

text \<open>\<open>frame[mask]\<close>: the records whose mask entry is true, in the frame's order.\<close>

definition select_rows :: "bool list \<Rightarrow> ('a, 'g) gdf \<Rightarrow> ('a, 'g) gdf" where
  "select_rows keep g = g\<lparr>rows := map fst (filter snd (zip (rows g) keep))\<rparr>"

text \<open>
  \<open>frame.to_crs(epsg=n)\<close>. GeoPandas refuses a frame without a CRS (``Cannot transform
  naive geometries''), returns the geometries as they are when the CRS is exactly the
  target, and otherwise sends every geometry through the transformation \<open>tr\<close> from the
  frame's CRS to the target, which belongs to pyproj and is a parameter.
\<close>

definition to_crs ::
  "(crs \<Rightarrow> crs \<Rightarrow> 'g \<Rightarrow> 'g) \<Rightarrow> int \<Rightarrow> ('a, 'g) gdf \<Rightarrow> error + ('a, 'g) gdf" where
  "to_crs tr n g =
     (case crs g of
        None \<Rightarrow> Inl NaiveGeometryError
      | Some c \<Rightarrow>
          Inr (if c = EPSG n then g
               else g\<lparr>rows := map (\<lambda>r. r\<lparr>geom := tr c (EPSG n) (geom r)\<rparr>) (rows g),
                      crs := Some (EPSG n)\<rparr>))"

text \<open>
  \<open>frame.geometry.unary_union.centroid\<close> and the reading of its coordinates. The centroid
  of a union of geometries is Shapely's and is the parameter \<open>cen\<close>. The union of no
  geometry at all is the empty collection, whose centroid is the empty point: it has no
  coordinates, and the script stops at line 45 or, with coordinates that are not numbers,
  at the \<open>folium.Map\<close> call of line 47.
\<close>

definition map_center :: "('g list \<Rightarrow> 'p) \<Rightarrow> ('a, 'g) gdf \<Rightarrow> error + 'p" where
  "map_center cen g =
     (if rows g = [] then Inl EmptyCentroidError else Inr (cen (map geom (rows g))))"

subsection \<open>The store\<close>

text \<open>
  Frames are objects: a variable of the script holds the address of one. The store maps
  addresses to frames; the addresses below \<open>fresh\<close> are the ones in use.
\<close>

type_synonym addr = nat

record ('a, 'g) store =
  objs :: "addr \<Rightarrow> ('a, 'g) gdf"
  fresh :: addr

definition alloc :: "('a, 'g) gdf \<Rightarrow> ('a, 'g) store \<Rightarrow> ('a, 'g) store \<times> addr" where
  "alloc g s = (s\<lparr>objs := (objs s)(fresh s := g), fresh := Suc (fresh s)\<rparr>, fresh s)"

definition mutate ::
  "addr \<Rightarrow> (('a, 'g) gdf \<Rightarrow> ('a, 'g) gdf) \<Rightarrow> ('a, 'g) store \<Rightarrow> ('a, 'g) store" where
  "mutate a f s = s\<lparr>objs := (objs s)(a := f (objs s a))\<rparr>"

definition empty_gdf :: "('a, 'g) gdf" where
  "empty_gdf = \<lparr>columns = [], rows = [], crs = None\<rparr>"

text \<open>The global variables of the script that hold frames.\<close>

record env =
  gdf :: addr
  gdf_clean :: addr
  block6_gdf :: addr
  other_gdf :: addr

subsection \<open>The script\<close>

text \<open>Line 11: the frame read from the shapefile becomes the first object.\<close>

definition load :: "('a, 'g) gdf \<Rightarrow> ('a, 'g) store \<times> addr" where
  "load input = alloc input \<lparr>objs = (\<lambda>_. empty_gdf), fresh = 0\<rparr>"

text \<open>
  Lines 17 to 26. \<open>copy()\<close> makes a new object; the assignments to a column change the
  object that \<open>gdf_clean\<close> holds; \<open>rename\<close> returns a new object, to which the variable
  is bound again. The result is the store and the address in \<open>gdf_clean\<close>.
\<close>

definition cleaner ::
  "('a \<Rightarrow> int option) \<Rightarrow> ('a, 'g) store \<Rightarrow> addr \<Rightarrow> error + (('a, 'g) store \<times> addr)" where
  "cleaner to_int s a =
     (let (s1, c) = alloc (objs s a) s in
      case getitem ''Ward_No'' (objs s1 c) of
        Inl e \<Rightarrow> Inl e
      | Inr col \<Rightarrow>
          (case astype_int to_int col of
             Inl e \<Rightarrow> Inl e
           | Inr ns \<Rightarrow>
               (let s2 = mutate c (setitem ''Ward_No'' (map IntV ns)) s1 in
                if ''SUM_Final_'' \<in> set (columns (objs s2 c))
                then Inr (alloc (rename_columns ''SUM_Final_'' ''Population'' (objs s2 c)) s2)
                else Inr (mutate c (setitem_scalar ''Population'' NoneV) s2, c))))"

text \<open>Line 30.\<close>

definition block6_wards :: "int list" where
  "block6_wards = [429, 430, 431, 432, 433, 434]"

text \<open>
  Lines 32 and 33: each line reads the column, builds the mask, selects and copies. The
  result is the store and the addresses in \<open>block6_gdf\<close> and \<open>other_gdf\<close>.
\<close>

definition partitioner ::
  "('a, 'g) store \<Rightarrow> addr \<Rightarrow> error + (('a, 'g) store \<times> addr \<times> addr)" where
  "partitioner s c =
     (case getitem ''Ward_No'' (objs s c) of
        Inl e \<Rightarrow> Inl e
      | Inr col \<Rightarrow>
          (let (s1, b) = alloc (select_rows (map (\<lambda>v. isin v block6_wards) col) (objs s c)) s in
           case getitem ''Ward_No'' (objs s1 c) of
             Inl e \<Rightarrow> Inl e
           | Inr col' \<Rightarrow>
               (let (s2, t) =
                      alloc (select_rows (map (\<lambda>v. \<not> isin v block6_wards) col') (objs s1 c)) s1
                in Inr (s2, b, t))))"

text \<open>Lines 11 to 33 together.\<close>

definition split_script ::
  "('a \<Rightarrow> int option) \<Rightarrow> ('a, 'g) gdf \<Rightarrow> error + (('a, 'g) store \<times> env)" where
  "split_script to_int input =
     (let (s0, a) = load input in
      case cleaner to_int s0 a of
        Inl e \<Rightarrow> Inl e
      | Inr (s1, c) \<Rightarrow>
          (case partitioner s1 c of
             Inl e \<Rightarrow> Inl e
           | Inr (s2, b, t) \<Rightarrow>
               Inr (s2, \<lparr>gdf = a, gdf_clean = c, block6_gdf = b, other_gdf = t\<rparr>)))"

text \<open>Lines 38 to 41: the test on the CRS of \<open>gdf_clean\<close>, and the three reprojections.\<close>

definition needs_reprojection :: "('a, 'g) gdf \<Rightarrow> bool" where
  "needs_reprojection g = (case crs g of None \<Rightarrow> True | Some c \<Rightarrow> to_epsg c \<noteq> Some 4326)"

definition projector ::
  "(crs \<Rightarrow> crs \<Rightarrow> 'g \<Rightarrow> 'g) \<Rightarrow> ('a, 'g) store \<Rightarrow> env \<Rightarrow> error + (('a, 'g) store \<times> env)" where
  "projector tr s e =
     (if needs_reprojection (objs s (gdf_clean e)) then
        (case to_crs tr 4326 (objs s (gdf_clean e)) of
           Inl x \<Rightarrow> Inl x
         | Inr g1 \<Rightarrow>
             (let (s1, c) = alloc g1 s in
              case to_crs tr 4326 (objs s1 (block6_gdf e)) of
                Inl x \<Rightarrow> Inl x
              | Inr g2 \<Rightarrow>
                  (let (s2, b) = alloc g2 s1 in
                   case to_crs tr 4326 (objs s2 (other_gdf e)) of
                     Inl x \<Rightarrow> Inl x
                   | Inr g3 \<Rightarrow>
                       (let (s3, t) = alloc g3 s2 in
                        Inr (s3, e\<lparr>gdf_clean := c, block6_gdf := b, other_gdf := t\<rparr>)))))
      else Inr (s, e))"

text \<open>
  Lines 11 to 47: everything up to the creation of the map, which needs the centre. No
  file is written up to here.
\<close>

definition prepare ::
  "('a \<Rightarrow> int option) \<Rightarrow> (crs \<Rightarrow> crs \<Rightarrow> 'g \<Rightarrow> 'g) \<Rightarrow> ('g list \<Rightarrow> 'p) \<Rightarrow> ('a, 'g) gdf
     \<Rightarrow> error + (('a, 'g) store \<times> env \<times> 'p)" where
  "prepare to_int tr cen input =
     (case split_script to_int input of
        Inl x \<Rightarrow> Inl x
      | Inr (s, e) \<Rightarrow>
          (case projector tr s e of
             Inl x \<Rightarrow> Inl x
           | Inr (s', e') \<Rightarrow>
               (case map_center cen (objs s' (block6_gdf e')) of
                  Inl x \<Rightarrow> Inl x
                | Inr p \<Rightarrow> Inr (s', e', p))))"

text \<open>
  Lines 109 to 124: the three files, written in this order; a path that cannot be written
  (the predicate \<open>ok\<close> stands for the file system) stops the script there. The layers of
  lines 51 to 107 are built in memory and write nothing; what folium may raise while it
  builds them is left out.
\<close>

definition output_paths :: "string list" where
  "output_paths =
     [''../block6_boundary_map.html'',
      ''../block6_wards.geojson'',
      ''../block6_shapefile/block6_wards.shp'']"

fun write_all :: "(string \<Rightarrow> bool) \<Rightarrow> string list \<Rightarrow> string list \<Rightarrow> error option \<times> string list" where
  "write_all ok [] written = (None, written)"
| "write_all ok (p # ps) written =
     (if ok p then write_all ok ps (written @ [p]) else (Some (WriteError p), written))"

text \<open>The whole run: how it ended, and the files it wrote.\<close>

definition ward_map ::
  "('a \<Rightarrow> int option) \<Rightarrow> (crs \<Rightarrow> crs \<Rightarrow> 'g \<Rightarrow> 'g) \<Rightarrow> ('g list \<Rightarrow> 'p) \<Rightarrow> (string \<Rightarrow> bool)
     \<Rightarrow> ('a, 'g) gdf \<Rightarrow> error option \<times> string list" where
  "ward_map to_int tr cen ok input =
     (case prepare to_int tr cen input of
        Inl x \<Rightarrow> (Some x, [])
      | Inr _ \<Rightarrow> write_all ok output_paths [])"

section \<open>Auxiliary notions\<close>

text \<open>
  The frame that \<open>gdf_clean\<close> holds after line 26, for a frame whose identifiers
  converted to \<open>ns\<close>: the coercion of line 20, then line 24 or line 26.
\<close>

definition cleaned :: "int list \<Rightarrow> ('a, 'g) gdf \<Rightarrow> ('a, 'g) gdf" where
  "cleaned ns g =
     (let g1 = setitem ''Ward_No'' (map IntV ns) g in
      if ''SUM_Final_'' \<in> set (columns g1)
      then rename_columns ''SUM_Final_'' ''Population'' g1
      else setitem_scalar ''Population'' NoneV g1)"

text \<open>
  The membership test of lines 32 and 33, on one record.
\<close>

definition in_block6 :: "('a, 'g) feature \<Rightarrow> bool" where
  "in_block6 = (\<lambda>r. isin (cell ''Ward_No'' r) block6_wards)"

text \<open>
  What a run of lines 11 to 33 shows from outside: the sizes of the two subsets.
\<close>

definition subset_sizes :: "('a \<Rightarrow> int option) \<Rightarrow> ('a, 'g) gdf \<Rightarrow> error + nat \<times> nat" where
  "subset_sizes to_int input =
     (case split_script to_int input of
        Inl x \<Rightarrow> Inl x
      | Inr (s, e) \<Rightarrow>
          Inr (length (rows (objs s (block6_gdf e))), length (rows (objs s (other_gdf e)))))"

text \<open>
  The object the Loader returned, looked at again after lines 17 to 26.
\<close>

definition loader_object_after_cleanup ::
  "('a \<Rightarrow> int option) \<Rightarrow> ('a, 'g) gdf \<Rightarrow> error + ('a, 'g) gdf" where
  "loader_object_after_cleanup to_int input =
     (let (s0, a) = load input in
      case cleaner to_int s0 a of
        Inl x \<Rightarrow> Inl x
      | Inr (s1, c) \<Rightarrow> Inr (objs s1 a))"

subsection \<open>Example inputs\<close>

text \<open>
  A small collection in a projected CRS, with identifiers read as text and as integers; its
  geometries are numbered, and the example transformation shifts a number by 1000.
\<close>

definition demo_row :: "string val \<Rightarrow> int \<Rightarrow> (string, int) feature" where
  "demo_row w g = \<lparr>attrs = [''Ward_No'' \<mapsto> w, ''SUM_Final_'' \<mapsto> Raw ''1200.0''], geom = g\<rparr>"

definition demo_input :: "(string, int) gdf" where
  "demo_input =
     \<lparr>columns = [''Ward_No'', ''SUM_Final_''],
      rows = [demo_row (Raw ''428'') 1, demo_row (IntV 429) 2, demo_row (Raw ''430'') 3],
      crs = Some (EPSG 32735)\<rparr>"

definition demo_to_int :: "string \<Rightarrow> int option" where
  "demo_to_int w = (if w = ''428'' then Some 428 else if w = ''430'' then Some 430 else None)"

definition demo_tr :: "crs \<Rightarrow> crs \<Rightarrow> int \<Rightarrow> int" where
  "demo_tr c c' g = g + 1000"

definition demo_cen :: "int list \<Rightarrow> int" where
  "demo_cen gs = sum_list gs"

definition demo_ok :: "string \<Rightarrow> bool" where
  "demo_ok p = True"

text \<open>
  Variants of it: without the population column, with an identifier that is not a number,
  with no ward of Block 6, without a CRS, and already in WGS 84.
\<close>

definition demo_bare_input :: "(string, int) gdf" where
  "demo_bare_input =
     \<lparr>columns = [''Ward_No''],
      rows = [\<lparr>attrs = [''Ward_No'' \<mapsto> Raw ''428''], geom = 1\<rparr>,
              \<lparr>attrs = [''Ward_No'' \<mapsto> IntV 429], geom = 2\<rparr>],
      crs = Some (EPSG 32735)\<rparr>"



definition demo_naive_input :: "(string, int) gdf" where
  "demo_naive_input = demo_input\<lparr>crs := None\<rparr>"

definition demo_wgs_input :: "(string, int) gdf" where
  "demo_wgs_input = demo_input\<lparr>crs := Some (OtherCRS ''GEOGCS[WGS 84]'' (Some 4326))\<rparr>"

text \<open>
  The collection of wards 1 to 600 in which wards 433 and 434 are missing.
\<close>

definition scenario_ids :: "int list" where
  "scenario_ids = filter (\<lambda>n. n \<noteq> 433 \<and> n \<noteq> 434) [1..600]"

definition scenario_row :: "int \<Rightarrow> (unit, int) feature" where
  "scenario_row n = \<lparr>attrs = [''Ward_No'' \<mapsto> IntV n], geom = n\<rparr>"

definition scenario_input :: "(unit, int) gdf" where
  "scenario_input =
     \<lparr>columns = [''Ward_No''], rows = map scenario_row scenario_ids, crs = Some (EPSG 4326)\<rparr>"

definition scenario_to_int :: "unit \<Rightarrow> int option" where
  "scenario_to_int u = None"

section \<open>Facts about the library operations\<close>

lemma mask_filter:
  "map fst (filter snd (zip xs (map p xs))) = filter p xs"
  by (induction xs) auto

lemma select_rows_map: "select_rows (map p (rows g)) g = g\<lparr>rows := filter p (rows g)\<rparr>"
  by (simp add: select_rows_def mask_filter)

lemma astype_int_Inr_D:
  "astype_int f vs = Inr ns \<Longrightarrow> map (int_of_val f) vs = map Some ns"
  by (induction vs arbitrary: ns) (auto split: option.splits sum.splits)

lemma astype_int_Inr_I:
  "map (int_of_val f) vs = map Some ns \<Longrightarrow> astype_int f vs = Inr ns"
  by (induction vs arbitrary: ns) (auto split: option.splits sum.splits)


lemma astype_int_length:
  "astype_int f vs = Inr ns \<Longrightarrow> length ns = length vs"
  using astype_int_Inr_D [of f vs ns] by (metis length_map)


lemma columns_setitem:
  "columns (setitem name vs g) = (if name \<in> set (columns g) then columns g else columns g @ [name])"
  by (simp add: setitem_def)

lemma crs_setitem: "crs (setitem name vs g) = crs g"
  by (simp add: setitem_def)

lemma rows_setitem:
  "rows (setitem name vs g) = map (\<lambda>(r, v). r\<lparr>attrs := (attrs r)(name \<mapsto> v)\<rparr>) (zip (rows g) vs)"
  by (simp add: setitem_def)

lemma length_rows_setitem:
  "length vs = length (rows g) \<Longrightarrow> length (rows (setitem name vs g)) = length (rows g)"
  by (simp add: setitem_def)

lemma rows_setitem_nth:
  "length vs = length (rows g) \<Longrightarrow> i < length (rows g) \<Longrightarrow>
     rows (setitem name vs g) ! i = (rows g ! i)\<lparr>attrs := (attrs (rows g ! i))(name \<mapsto> vs ! i)\<rparr>"
  by (simp add: setitem_def)

lemma columns_rename:
  "columns (rename_columns old new g) = map (\<lambda>c. if c = old then new else c) (columns g)"
  by (simp add: rename_columns_def)

lemma crs_rename: "crs (rename_columns old new g) = crs g"
  by (simp add: rename_columns_def)

lemma length_rows_rename: "length (rows (rename_columns old new g)) = length (rows g)"
  by (simp add: rename_columns_def)

lemma rows_rename_nth:
  "i < length (rows g) \<Longrightarrow>
     rows (rename_columns old new g) ! i =
       (rows g ! i)\<lparr>attrs := (\<lambda>k. if k = new then attrs (rows g ! i) old
                                  else if k = old then None
                                  else attrs (rows g ! i) k)\<rparr>"
  by (simp add: rename_columns_def)

lemma to_crs_Inr:
  assumes "to_crs tr n g = Inr g'"
  shows "crs g' = Some (EPSG n)" and "length (rows g') = length (rows g)"
    and "columns g' = columns g"
  using assms by (auto simp: to_crs_def split: option.splits if_splits)

lemma to_crs_undefined: "crs g = None \<Longrightarrow> to_crs tr n g = Inl NaiveGeometryError"
  by (simp add: to_crs_def)

lemma to_crs_defined: "crs g = Some c \<Longrightarrow> \<exists>g'. to_crs tr n g = Inr g'"
  by (simp add: to_crs_def)

lemma to_crs_idem: "to_crs tr n g = Inr g' \<Longrightarrow> to_crs tr n g' = Inr g'"
  by (auto simp: to_crs_def split: option.splits if_splits)

lemma in_block6_attrs:
  "in_block6 r \<longleftrightarrow> (\<exists>n\<in>set block6_wards. attrs r ''Ward_No'' = Some (IntV n))"
  by (auto simp: in_block6_def isin_def cell_def split: option.splits val.splits)

subsection \<open>The cleaned frame\<close>

lemma cleaned_if:
  "cleaned ns g =
     (if ''SUM_Final_'' \<in> set (columns g)
      then rename_columns ''SUM_Final_'' ''Population'' (setitem ''Ward_No'' (map IntV ns) g)
      else setitem_scalar ''Population'' NoneV (setitem ''Ward_No'' (map IntV ns) g))"
  by (simp add: cleaned_def Let_def columns_setitem)

lemma columns_cleaned_ward: "''Ward_No'' \<in> set (columns (cleaned ns g))"
  by (auto simp: cleaned_def setitem_scalar_def columns_setitem columns_rename Let_def)

lemma crs_cleaned: "crs (cleaned ns g) = crs g"
  by (simp add: cleaned_def setitem_scalar_def crs_setitem crs_rename Let_def)

lemma length_cleaned:
  "length ns = length (rows g) \<Longrightarrow> length (rows (cleaned ns g)) = length (rows g)"
  by (simp add: cleaned_if setitem_scalar_def length_rows_setitem length_rows_rename)

lemma cleaned_nth:
  assumes "length ns = length (rows g)" and "i < length (rows g)"
  shows "rows (cleaned ns g) ! i =
     (if ''SUM_Final_'' \<in> set (columns g)
      then (rows g ! i)\<lparr>attrs := (\<lambda>k. if k = ''Population'' then attrs (rows g ! i) ''SUM_Final_''
                                      else if k = ''SUM_Final_'' then None
                                      else if k = ''Ward_No'' then Some (IntV (ns ! i))
                                      else attrs (rows g ! i) k)\<rparr>
      else (rows g ! i)\<lparr>attrs := (attrs (rows g ! i))(''Ward_No'' \<mapsto> IntV (ns ! i),
                                                       ''Population'' \<mapsto> NoneV)\<rparr>)"
proof (cases "''SUM_Final_'' \<in> set (columns g)")
  case True
  with assms show ?thesis
    by (simp add: cleaned_if rows_rename_nth length_rows_setitem rows_setitem_nth fun_eq_iff)
next
  case False
  with assms show ?thesis
    by (simp add: cleaned_if setitem_scalar_def length_rows_setitem rows_setitem_nth)
qed

lemma geom_cleaned:
  assumes "length ns = length (rows g)"
  shows "map geom (rows (cleaned ns g)) = map geom (rows g)"
  by (rule nth_equalityI) (simp_all add: length_cleaned [OF assms] cleaned_nth [OF assms])

lemma ward_cleaned:
  assumes "length ns = length (rows g)"
  shows "map (\<lambda>r. attrs r ''Ward_No'') (rows (cleaned ns g)) = map (\<lambda>n. Some (IntV n)) ns"
  by (rule nth_equalityI) (simp_all add: length_cleaned [OF assms] assms cleaned_nth [OF assms])

lemma ward_cleaned_IntV:
  assumes "length ns = length (rows g)" and "r \<in> set (rows (cleaned ns g))"
  shows "\<exists>n. attrs r ''Ward_No'' = Some (IntV n)"
proof -
  from assms(2) have "attrs r ''Ward_No'' \<in> set (map (\<lambda>r. attrs r ''Ward_No'') (rows (cleaned ns g)))"
    by simp
  then show ?thesis unfolding ward_cleaned [OF assms(1)] by auto
qed

lemma cleaned_population_renamed:
  assumes "''SUM_Final_'' \<in> set (columns g)" and "length ns = length (rows g)"
    and "''Ward_No'' \<in> set (columns g)"
  shows "columns (cleaned ns g) = map (\<lambda>c. if c = ''SUM_Final_'' then ''Population'' else c) (columns g)"
    and "map (cell ''Population'') (rows (cleaned ns g)) = map (cell ''SUM_Final_'') (rows g)"
proof -
  from assms(1,3) show "columns (cleaned ns g) = map (\<lambda>c. if c = ''SUM_Final_'' then ''Population'' else c) (columns g)"
    by (simp add: cleaned_if columns_setitem columns_rename)
  from assms(1) show "map (cell ''Population'') (rows (cleaned ns g)) = map (cell ''SUM_Final_'') (rows g)"
    by (intro nth_equalityI)
       (simp_all add: length_cleaned [OF assms(2)] cleaned_nth [OF assms(2)] cell_def)
qed

lemma cleaned_population_null:
  assumes "''SUM_Final_'' \<notin> set (columns g)"
  shows "''Population'' \<in> set (columns (cleaned ns g))"
    and "r \<in> set (rows (cleaned ns g)) \<Longrightarrow> attrs r ''Population'' = Some NoneV"
proof -
  from assms show "''Population'' \<in> set (columns (cleaned ns g))"
    by (simp add: cleaned_if columns_setitem setitem_scalar_def)
  assume "r \<in> set (rows (cleaned ns g))"
  with assms show "attrs r ''Population'' = Some NoneV"
    by (auto simp: cleaned_if setitem_scalar_def rows_setitem dest!: set_zip_rightD)
qed

section \<open>The script, stage by stage\<close>

text \<open>
  Each stage as one equation: which objects it creates, at which addresses, and when it
  raises.
\<close>

lemma cleaner_eq:
  "cleaner to_int s a =
     (if ''Ward_No'' \<in> set (columns (objs s a)) then
        (case astype_int to_int (map (cell ''Ward_No'') (rows (objs s a))) of
           Inl e \<Rightarrow> Inl e
         | Inr ns \<Rightarrow>
             (if ''SUM_Final_'' \<in> set (columns (objs s a)) then
                Inr (s\<lparr>objs := (objs s)(fresh s := setitem ''Ward_No'' (map IntV ns) (objs s a),
                                        Suc (fresh s) := cleaned ns (objs s a)),
                       fresh := Suc (Suc (fresh s))\<rparr>, Suc (fresh s))
              else
                Inr (s\<lparr>objs := (objs s)(fresh s := cleaned ns (objs s a)),
                       fresh := Suc (fresh s)\<rparr>, fresh s)))
      else Inl (KeyError ''Ward_No''))"
  by (simp add: cleaner_def alloc_def mutate_def getitem_def cleaned_def Let_def columns_setitem
      split: sum.splits)

lemma cleaner_Inr:
  assumes "cleaner to_int s a = Inr (s', c)"
  shows "\<exists>ns. ''Ward_No'' \<in> set (columns (objs s a))
      \<and> astype_int to_int (map (cell ''Ward_No'') (rows (objs s a))) = Inr ns
      \<and> objs s' c = cleaned ns (objs s a)
      \<and> fresh s \<le> c \<and> c < fresh s' \<and> (\<forall>x<fresh s. objs s' x = objs s x)"
proof (cases "''Ward_No'' \<in> set (columns (objs s a))")
  case False
  with assms show ?thesis by (simp add: cleaner_eq)
next
  case True
  show ?thesis
  proof (cases "astype_int to_int (map (cell ''Ward_No'') (rows (objs s a)))")
    case (Inl x)
    with assms True show ?thesis by (simp add: cleaner_eq)
  next
    case (Inr ns)
    with assms True show ?thesis
      by (cases "''SUM_Final_'' \<in> set (columns (objs s a))") (auto simp: cleaner_eq)
  qed
qed

lemma cleaner_total:
  assumes "''Ward_No'' \<in> set (columns (objs s a))"
    and "astype_int to_int (map (cell ''Ward_No'') (rows (objs s a))) = Inr ns"
  shows "\<exists>s' c. cleaner to_int s a = Inr (s', c)"
  using assms by (simp add: cleaner_eq)

lemma partitioner_eq:
  "c < fresh s \<Longrightarrow> partitioner s c =
     (if ''Ward_No'' \<in> set (columns (objs s c)) then
        Inr (s\<lparr>objs := (objs s)(fresh s := (objs s c)\<lparr>rows := filter in_block6 (rows (objs s c))\<rparr>,
                                Suc (fresh s) := (objs s c)\<lparr>rows := filter (\<lambda>r. \<not> in_block6 r) (rows (objs s c))\<rparr>),
               fresh := Suc (Suc (fresh s))\<rparr>, fresh s, Suc (fresh s))
      else Inl (KeyError ''Ward_No''))"
  by (simp add: partitioner_def alloc_def getitem_def Let_def select_rows_map in_block6_def o_def)

lemma split_script_eq:
  "split_script to_int input =
     (if ''Ward_No'' \<in> set (columns input) then
        (case astype_int to_int (map (cell ''Ward_No'') (rows input)) of
           Inl x \<Rightarrow> Inl x
         | Inr ns \<Rightarrow>
             (let k = (if ''SUM_Final_'' \<in> set (columns input) then 2 else 1);
                  g = cleaned ns input
              in Inr (\<lparr>objs = (\<lambda>i. if i = 0 then input
                                   else if i = k then g
                                   else if i = Suc k then g\<lparr>rows := filter in_block6 (rows g)\<rparr>
                                   else if i = Suc (Suc k) then g\<lparr>rows := filter (\<lambda>r. \<not> in_block6 r) (rows g)\<rparr>
                                   else if i = 1 then setitem ''Ward_No'' (map IntV ns) input
                                   else empty_gdf),
                       fresh = Suc (Suc (Suc k))\<rparr>,
                      \<lparr>gdf = 0, gdf_clean = k, block6_gdf = Suc k, other_gdf = Suc (Suc k)\<rparr>)))
      else Inl (KeyError ''Ward_No''))"
  by (auto simp: split_script_def load_def alloc_def cleaner_eq partitioner_eq columns_cleaned_ward
      Let_def fun_eq_iff split: sum.splits)

lemma split_script_total:
  assumes "''Ward_No'' \<in> set (columns input)"
    and "astype_int to_int (map (cell ''Ward_No'') (rows input)) = Inr ns"
  shows "\<exists>s e. split_script to_int input = Inr (s, e)"
  using assms by (simp add: split_script_eq Let_def)

lemma split_script_Inr:
  assumes "split_script to_int input = Inr (s, e)"
  shows "\<exists>ns. ''Ward_No'' \<in> set (columns input)
      \<and> astype_int to_int (map (cell ''Ward_No'') (rows input)) = Inr ns
      \<and> objs s (gdf e) = input
      \<and> objs s (gdf_clean e) = cleaned ns input
      \<and> objs s (block6_gdf e) = (cleaned ns input)\<lparr>rows := filter in_block6 (rows (cleaned ns input))\<rparr>
      \<and> objs s (other_gdf e) =
           (cleaned ns input)\<lparr>rows := filter (\<lambda>r. \<not> in_block6 r) (rows (cleaned ns input))\<rparr>
      \<and> gdf e < gdf_clean e \<and> gdf_clean e < block6_gdf e \<and> block6_gdf e < other_gdf e
      \<and> other_gdf e < fresh s"
proof (cases "''Ward_No'' \<in> set (columns input)")
  case False
  with assms show ?thesis by (simp add: split_script_eq)
next
  case True
  show ?thesis
  proof (cases "astype_int to_int (map (cell ''Ward_No'') (rows input))")
    case (Inl x)
    with assms True show ?thesis by (simp add: split_script_eq)
  next
    case (Inr ns)
    with assms True show ?thesis
      by (cases "''SUM_Final_'' \<in> set (columns input)") (auto simp: split_script_eq Let_def)
  qed
qed

lemma split_rows:
  assumes "split_script to_int input = Inr (s, e)"
  shows "rows (objs s (block6_gdf e)) = filter in_block6 (rows (objs s (gdf_clean e)))"
    and "rows (objs s (other_gdf e)) = filter (\<lambda>r. \<not> in_block6 r) (rows (objs s (gdf_clean e)))"
  using split_script_Inr [OF assms] by auto

lemma split_script_crs:
  assumes "split_script to_int input = Inr (s, e)"
  shows "crs (objs s (gdf_clean e)) = crs input" and "crs (objs s (block6_gdf e)) = crs input"
    and "crs (objs s (other_gdf e)) = crs input"
  using split_script_Inr [OF assms] by (auto simp: crs_cleaned)


lemma split_wards:
  assumes "''Ward_No'' \<in> set (columns input)"
    and "astype_int to_int (map (cell ''Ward_No'') (rows input)) = Inr ids"
  shows "\<exists>s e. split_script to_int input = Inr (s, e)
      \<and> map (\<lambda>r. attrs r ''Ward_No'') (rows (objs s (block6_gdf e)))
          = map (\<lambda>n. Some (IntV n)) (filter (\<lambda>n. n \<in> set block6_wards) ids)
      \<and> map (\<lambda>r. attrs r ''Ward_No'') (rows (objs s (other_gdf e)))
          = map (\<lambda>n. Some (IntV n)) (filter (\<lambda>n. n \<notin> set block6_wards) ids)"
proof -
  obtain s e where h: "split_script to_int input = Inr (s, e)"
    using split_script_total [OF assms] by blast
  from split_script_Inr [OF h] assms(2)
  have b: "rows (objs s (block6_gdf e)) = filter in_block6 (rows (cleaned ids input))"
    and t: "rows (objs s (other_gdf e)) = filter (\<lambda>r. \<not> in_block6 r) (rows (cleaned ids input))"
    by auto
  have n: "length ids = length (rows input)"
    using astype_int_length [OF assms(2)] by simp
  define q :: "'a val option \<Rightarrow> bool" where "q v \<longleftrightarrow> (\<exists>n\<in>set block6_wards. v = Some (IntV n))" for v
  have f1: "map (\<lambda>r. attrs r ''Ward_No'') (filter in_block6 xs)
              = filter q (map (\<lambda>r. attrs r ''Ward_No'') xs)" for xs :: "('a, 'b) feature list"
    by (induction xs) (simp_all add: in_block6_attrs q_def)
  have f2: "map (\<lambda>r. attrs r ''Ward_No'') (filter (\<lambda>r. \<not> in_block6 r) xs)
              = filter (\<lambda>v. \<not> q v) (map (\<lambda>r. attrs r ''Ward_No'') xs)" for xs :: "('a, 'b) feature list"
    by (induction xs) (simp_all add: in_block6_attrs q_def)
  have g1: "filter q (map (\<lambda>n. Some (IntV n)) ms)
              = map (\<lambda>n. Some (IntV n)) (filter (\<lambda>n. n \<in> set block6_wards) ms)" for ms
    by (induction ms) (simp_all add: q_def)
  have g2: "filter (\<lambda>v. \<not> q v) (map (\<lambda>n. Some (IntV n)) ms)
              = map (\<lambda>n. Some (IntV n)) (filter (\<lambda>n. n \<notin> set block6_wards) ms)" for ms
    by (induction ms) (simp_all add: q_def)
  from h show ?thesis
    by (simp add: b t f1 f2 ward_cleaned [OF n] g1 g2)
qed

lemma highlighted_origin:
  assumes "split_script to_int input = Inr (s, e)"
    and "r \<in> set (rows (objs s (block6_gdf e)))"
  shows "\<exists>r0\<in>set (rows input). \<exists>n\<in>set block6_wards.
           int_of_val to_int (cell ''Ward_No'' r0) = Some n
           \<and> attrs r ''Ward_No'' = Some (IntV n) \<and> geom r0 = geom r"
proof -
  from split_script_Inr [OF assms(1)] obtain ns
    where ns: "astype_int to_int (map (cell ''Ward_No'') (rows input)) = Inr ns"
      and b: "rows (objs s (block6_gdf e)) = filter in_block6 (rows (cleaned ns input))"
    by auto
  have n: "length ns = length (rows input)"
    using astype_int_length [OF ns] by simp
  from assms(2) b have r: "r \<in> set (rows (cleaned ns input))" and i: "in_block6 r"
    by auto
  from r obtain k where k: "k < length (rows (cleaned ns input))" "rows (cleaned ns input) ! k = r"
    by (auto simp: in_set_conv_nth)
  from k(1) have k': "k < length (rows input)" by (simp add: length_cleaned [OF n])
  have "map (\<lambda>r. attrs r ''Ward_No'') (rows (cleaned ns input)) ! k = map (\<lambda>n. Some (IntV n)) ns ! k"
    by (simp add: ward_cleaned [OF n])
  with k k' n have w: "attrs r ''Ward_No'' = Some (IntV (ns ! k))" by simp
  with i have m: "ns ! k \<in> set block6_wards" by (auto simp: in_block6_attrs)
  have "map (int_of_val to_int) (map (cell ''Ward_No'') (rows input)) ! k = map Some ns ! k"
    using astype_int_Inr_D [OF ns] by simp
  with k' n have c: "int_of_val to_int (cell ''Ward_No'' (rows input ! k)) = Some (ns ! k)" by simp
  have "map geom (rows (cleaned ns input)) ! k = map geom (rows input) ! k"
    by (simp add: geom_cleaned [OF n])
  with k k' have g: "geom (rows input ! k) = geom r" by simp
  from k' have "rows input ! k \<in> set (rows input)" by (rule nth_mem)
  with m c w g show ?thesis by blast
qed

lemma needs_reprojection_target: "crs g = Some (EPSG 4326) \<Longrightarrow> \<not> needs_reprojection g"
  by (simp add: needs_reprojection_def)

lemma projector_noop: "\<not> needs_reprojection (objs s (gdf_clean e)) \<Longrightarrow> projector tr s e = Inr (s, e)"
  by (simp add: projector_def)

lemma projector_undefined:
  "crs (objs s (gdf_clean e)) = None \<Longrightarrow> projector tr s e = Inl NaiveGeometryError"
  by (simp add: projector_def needs_reprojection_def to_crs_undefined)

lemma projector_reprojects:
  assumes "needs_reprojection (objs s (gdf_clean e))"
    and "projector tr s e = Inr (s', e')"
  shows "gdf e' = gdf e \<and> gdf_clean e' = fresh s \<and> block6_gdf e' = Suc (fresh s)
       \<and> other_gdf e' = Suc (Suc (fresh s))
       \<and> to_crs tr 4326 (objs s (gdf_clean e)) = Inr (objs s' (gdf_clean e'))
       \<and> (block6_gdf e < fresh s \<longrightarrow>
            to_crs tr 4326 (objs s (block6_gdf e)) = Inr (objs s' (block6_gdf e')))
       \<and> (other_gdf e < fresh s \<longrightarrow>
            to_crs tr 4326 (objs s (other_gdf e)) = Inr (objs s' (other_gdf e')))
       \<and> (\<forall>x<fresh s. objs s' x = objs s x)"
  using assms
  by (auto simp: projector_def alloc_def Let_def split: sum.splits)

lemma projector_total:
  assumes "crs (objs s (gdf_clean e)) = Some c" and "crs (objs s (block6_gdf e)) = Some c"
    and "crs (objs s (other_gdf e)) = Some c"
    and "gdf_clean e < fresh s" and "block6_gdf e < fresh s" and "other_gdf e < fresh s"
  shows "\<exists>s' e'. projector tr s e = Inr (s', e')"
proof (cases "needs_reprojection (objs s (gdf_clean e))")
  case False
  then show ?thesis by (simp add: projector_noop)
next
  case True
  from assms(1-3) obtain g1 g2 g3
    where "to_crs tr 4326 (objs s (gdf_clean e)) = Inr g1"
      and "to_crs tr 4326 (objs s (block6_gdf e)) = Inr g2"
      and "to_crs tr 4326 (objs s (other_gdf e)) = Inr g3"
    using to_crs_defined by metis
  with True assms(4-6) show ?thesis
    by (simp add: projector_def alloc_def Let_def)
qed





subsection \<open>The example inputs, evaluated\<close>

lemma demo_column:
  "''Ward_No'' \<in> set (columns demo_input)"
  "astype_int demo_to_int (map (cell ''Ward_No'') (rows demo_input)) = Inr [428, 429, 430]"
  by (simp_all add: demo_input_def demo_row_def demo_to_int_def cell_def)

lemma demo_bare_column:
  "''Ward_No'' \<in> set (columns demo_bare_input)"
  "astype_int demo_to_int (map (cell ''Ward_No'') (rows demo_bare_input)) = Inr [428, 429]"
  "''SUM_Final_'' \<notin> set (columns demo_bare_input)"
  "''SUM_Final_'' \<in> set (columns demo_input)"
  by (simp_all add: demo_bare_input_def demo_input_def demo_to_int_def cell_def)


lemma demo_loaded:
  "objs (fst (load input)) (snd (load input)) = input"
  "snd (load input) < fresh (fst (load input))"
  by (simp_all add: load_def alloc_def)

lemma demo_cleaned_rows:
  "rows (cleaned [428, 429, 430] demo_input) =
     [\<lparr>attrs = [''Ward_No'' \<mapsto> IntV 428, ''Population'' \<mapsto> Raw ''1200.0''], geom = 1\<rparr>,
      \<lparr>attrs = [''Ward_No'' \<mapsto> IntV 429, ''Population'' \<mapsto> Raw ''1200.0''], geom = 2\<rparr>,
      \<lparr>attrs = [''Ward_No'' \<mapsto> IntV 430, ''Population'' \<mapsto> Raw ''1200.0''], geom = 3\<rparr>]"
  by (auto simp: cleaned_def setitem_def rename_columns_def demo_input_def demo_row_def Let_def fun_eq_iff)

lemma demo_split:
  "\<exists>s e. split_script demo_to_int demo_input = Inr (s, e)
     \<and> map geom (rows (objs s (gdf_clean e))) = [1, 2, 3]
     \<and> map geom (rows (objs s (block6_gdf e))) = [2, 3]
     \<and> map geom (rows (objs s (other_gdf e))) = [1]"
proof -
  obtain s e where h: "split_script demo_to_int demo_input = Inr (s, e)"
    using split_script_total [OF demo_column] by blast
  from split_script_Inr [OF h] demo_column(2)
  have c: "objs s (gdf_clean e) = cleaned [428, 429, 430] demo_input"
    and b: "objs s (block6_gdf e) = (cleaned [428, 429, 430] demo_input)\<lparr>rows := filter in_block6 (rows (cleaned [428, 429, 430] demo_input))\<rparr>"
    and t: "objs s (other_gdf e) = (cleaned [428, 429, 430] demo_input)\<lparr>rows := filter (\<lambda>r. \<not> in_block6 r) (rows (cleaned [428, 429, 430] demo_input))\<rparr>"
    by auto
  have "map geom (rows (objs s (gdf_clean e))) = [1, 2, 3]"
    by (simp add: c demo_cleaned_rows)
  moreover have "map geom (rows (objs s (block6_gdf e))) = [2, 3]"
    by (simp add: b demo_cleaned_rows in_block6_def isin_def cell_def block6_wards_def)
  moreover have "map geom (rows (objs s (other_gdf e))) = [1]"
    by (simp add: t demo_cleaned_rows in_block6_def isin_def cell_def block6_wards_def)
  ultimately show ?thesis using h by auto
qed

lemma demo_naive_split:
  "\<exists>s e. split_script demo_to_int demo_naive_input = Inr (s, e)
     \<and> crs (objs s (gdf_clean e)) = None"
proof -
  have "''Ward_No'' \<in> set (columns demo_naive_input)"
    and a: "astype_int demo_to_int (map (cell ''Ward_No'') (rows demo_naive_input)) = Inr [428, 429, 430]"
    using demo_column by (simp_all add: demo_naive_input_def)
  then obtain s e where h: "split_script demo_to_int demo_naive_input = Inr (s, e)"
    using split_script_total by blast
  from split_script_Inr [OF h] a have "objs s (gdf_clean e) = cleaned [428, 429, 430] demo_naive_input"
    by auto
  then have "crs (objs s (gdf_clean e)) = None"
    by (simp add: crs_cleaned demo_naive_input_def)
  with h show ?thesis by blast
qed


lemma scenario_counts:
  assumes "distinct ids" and "set ids = {1..600} - A" and "A \<subseteq> set block6_wards"
    and "card A = 2"
  shows "set (filter (\<lambda>n. n \<in> set block6_wards) ids) = set block6_wards - A"
    and "length (filter (\<lambda>n. n \<in> set block6_wards) ids) = 4"
    and "length (filter (\<lambda>n. n \<notin> set block6_wards) ids) = 594"
proof -
  have fin: "finite A" using assms(3) by (rule finite_subset) simp
  have sub: "set block6_wards \<subseteq> {1..600}" by (simp add: block6_wards_def)
  show s: "set (filter (\<lambda>n. n \<in> set block6_wards) ids) = set block6_wards - A"
    using assms(2) sub by auto
  have "length (filter (\<lambda>n. n \<in> set block6_wards) ids)
          = card (set (filter (\<lambda>n. n \<in> set block6_wards) ids))"
    by (rule distinct_card [symmetric]) (simp add: assms(1))
  also have "\<dots> = card (set block6_wards) - card A"
    unfolding s using assms(3) fin by (simp add: card_Diff_subset)
  also have "\<dots> = 4" by (simp add: assms(4) block6_wards_def)
  finally show four: "length (filter (\<lambda>n. n \<in> set block6_wards) ids) = 4" .
  have "length ids = card ({1..600::int} - A)"
    using assms(1,2) by (metis distinct_card)
  also have "\<dots> = card {1..600::int} - card A"
    using assms(3) sub fin by (intro card_Diff_subset) auto
  also have "\<dots> = 598" by (simp add: assms(4))
  finally have "length ids = 598" .
  with four sum_length_filter_compl [of "\<lambda>n. n \<in> set block6_wards" ids]
  show "length (filter (\<lambda>n. n \<notin> set block6_wards) ids) = 594" by simp
qed

lemma scenario_facts:
  "''Ward_No'' \<in> set (columns scenario_input)"
  "astype_int scenario_to_int (map (cell ''Ward_No'') (rows scenario_input)) = Inr scenario_ids"
  "distinct scenario_ids"
  "set scenario_ids = {1..600} - {433, 434}"
  "{433, 434} \<subseteq> set block6_wards"
  "card {433, 434 :: int} = 2"
proof -
  show "''Ward_No'' \<in> set (columns scenario_input)" by (simp add: scenario_input_def)
  have "map (cell ''Ward_No'') (rows scenario_input) = map IntV scenario_ids"
    by (simp add: scenario_input_def scenario_row_def cell_def o_def)
  then show "astype_int scenario_to_int (map (cell ''Ward_No'') (rows scenario_input)) = Inr scenario_ids"
    by (simp add: astype_int_Inr_I o_def)
  show "distinct scenario_ids" by (simp add: scenario_ids_def)
  show "set scenario_ids = {1..600} - {433, 434}" by (auto simp: scenario_ids_def)
  show "{433, 434} \<subseteq> set block6_wards" by (simp add: block6_wards_def)
  show "card {433, 434 :: int} = 2" by simp
qed

section \<open>The Partitioner\<close>

text \<open>
  Claim C1. Whenever lines 11 to 33 run through, the highlighted subset and the context
  subset partition the cleaned collection: counted with multiplicity, the records of the
  two subsets together are the records of the cleaned collection; no record is in both;
  the union of the two is the whole collection; and the two sizes add up to the number of
  records.
\<close>

theorem partition_exhaustive_disjoint:
  assumes "split_script to_int input = Inr (s, e)"
  shows "mset (rows (objs s (block6_gdf e))) + mset (rows (objs s (other_gdf e)))
           = mset (rows (objs s (gdf_clean e)))
       \<and> set (rows (objs s (block6_gdf e))) \<inter> set (rows (objs s (other_gdf e))) = {}
       \<and> set (rows (objs s (block6_gdf e))) \<union> set (rows (objs s (other_gdf e)))
           = set (rows (objs s (gdf_clean e)))
       \<and> length (rows (objs s (block6_gdf e))) + length (rows (objs s (other_gdf e)))
           = length (rows (objs s (gdf_clean e)))"
proof -
  let ?all = "rows (objs s (gdf_clean e))"
  have m: "mset (filter in_block6 ?all) + mset (filter (\<lambda>r. \<not> in_block6 r) ?all) = mset ?all"
    by simp
  have l: "length (filter in_block6 ?all) + length (filter (\<lambda>r. \<not> in_block6 r) ?all) = length ?all"
    by (rule sum_length_filter_compl)
  have d: "set (filter in_block6 ?all) \<inter> set (filter (\<lambda>r. \<not> in_block6 r) ?all) = {}"
    by auto
  have u: "set (filter in_block6 ?all) \<union> set (filter (\<lambda>r. \<not> in_block6 r) ?all) = set ?all"
    by auto
  from m l d u show ?thesis
    unfolding split_rows [OF assms] by blast
qed

text \<open>
  On the example: wards 429 and 430 are highlighted, ward 428 is context.
\<close>

theorem partition_exhaustive_disjoint_witness:
  "\<exists>s e. split_script demo_to_int demo_input = Inr (s, e)
     \<and> map geom (rows (objs s (block6_gdf e))) = [2, 3]
     \<and> map geom (rows (objs s (other_gdf e))) = [1]
     \<and> mset (rows (objs s (block6_gdf e))) + mset (rows (objs s (other_gdf e)))
           = mset (rows (objs s (gdf_clean e)))
     \<and> set (rows (objs s (block6_gdf e))) \<inter> set (rows (objs s (other_gdf e))) = {}
     \<and> set (rows (objs s (block6_gdf e))) \<union> set (rows (objs s (other_gdf e)))
           = set (rows (objs s (gdf_clean e)))
     \<and> length (rows (objs s (block6_gdf e))) + length (rows (objs s (other_gdf e)))
           = length (rows (objs s (gdf_clean e)))"
proof -
  from demo_split obtain s e where h: "split_script demo_to_int demo_input = Inr (s, e)"
    and g: "map geom (rows (objs s (block6_gdf e))) = [2, 3]"
       "map geom (rows (objs s (other_gdf e))) = [1]"
    by auto
  from partition_exhaustive_disjoint [OF h] h g show ?thesis by auto
qed

text \<open>
  Claim C2. The ward identifiers found in the highlighted subset are integers of the set
  429, 430, 431, 432, 433, 434, and every record of the highlighted subset is a record of
  the collection that was split, which in turn comes from a record of the loaded collection
  with the same geometry and with the identifier that converts to its own: nothing is made
  up for an identifier that is absent.
\<close>

theorem highlighted_within_target:
  assumes "split_script to_int input = Inr (s, e)"
  shows "cell ''Ward_No'' ` set (rows (objs s (block6_gdf e)))
           \<subseteq> IntV ` {429, 430, 431, 432, 433, 434}
       \<and> set (rows (objs s (block6_gdf e))) \<subseteq> set (rows (objs s (gdf_clean e)))
       \<and> (\<forall>r\<in>set (rows (objs s (block6_gdf e))). \<exists>r0\<in>set (rows input).
             geom r0 = geom r
             \<and> map_option IntV (int_of_val to_int (cell ''Ward_No'' r0)) = attrs r ''Ward_No'')"
proof -
  have "cell ''Ward_No'' r \<in> IntV ` {429, 430, 431, 432, 433, 434}" if "in_block6 r"
    for r :: "('a, 'b) feature"
    using that by (cases "cell ''Ward_No'' r") (auto simp: in_block6_def isin_def block6_wards_def)
  then have "cell ''Ward_No'' ` set (rows (objs s (block6_gdf e)))
           \<subseteq> IntV ` {429, 430, 431, 432, 433, 434}
       \<and> set (rows (objs s (block6_gdf e))) \<subseteq> set (rows (objs s (gdf_clean e)))"
    unfolding split_rows [OF assms] by auto
  moreover have "\<exists>r0\<in>set (rows input). geom r0 = geom r
             \<and> map_option IntV (int_of_val to_int (cell ''Ward_No'' r0)) = attrs r ''Ward_No''"
    if "r \<in> set (rows (objs s (block6_gdf e)))" for r
    using highlighted_origin [OF assms that] by auto
  ultimately show ?thesis by blast
qed

text \<open>
  On the example, where wards 431 to 434 are absent: the highlighted subset has the two
  records of wards 429 and 430 and no other.
\<close>

theorem highlighted_within_target_witness:
  "\<exists>s e. split_script demo_to_int demo_input = Inr (s, e)
     \<and> map geom (rows (objs s (block6_gdf e))) = [2, 3]
     \<and> cell ''Ward_No'' ` set (rows (objs s (block6_gdf e)))
           \<subseteq> IntV ` {429, 430, 431, 432, 433, 434}
     \<and> set (rows (objs s (block6_gdf e))) \<subseteq> set (rows (objs s (gdf_clean e)))"
proof -
  from demo_split obtain s e where h: "split_script demo_to_int demo_input = Inr (s, e)"
    and g: "map geom (rows (objs s (block6_gdf e))) = [2, 3]"
    by auto
  from highlighted_within_target [OF h] h g show ?thesis by auto
qed

text \<open>
  Claim C8. Each subset is the cleaned collection filtered by the membership test, or by
  its negation, so it is a subsequence of the cleaned collection: the order of the records
  is the order of the collection, which is the order in which the records were loaded.
\<close>

theorem subsets_keep_order:
  assumes "split_script to_int input = Inr (s, e)"
  shows "rows (objs s (block6_gdf e)) = filter in_block6 (rows (objs s (gdf_clean e)))
       \<and> rows (objs s (other_gdf e)) = filter (\<lambda>r. \<not> in_block6 r) (rows (objs s (gdf_clean e)))
       \<and> subseq (rows (objs s (block6_gdf e))) (rows (objs s (gdf_clean e)))
       \<and> subseq (rows (objs s (other_gdf e))) (rows (objs s (gdf_clean e)))
       \<and> map geom (rows (objs s (gdf_clean e))) = map geom (rows input)"
proof -
  from split_script_Inr [OF assms] obtain ns
    where ns: "astype_int to_int (map (cell ''Ward_No'') (rows input)) = Inr ns"
      and c: "objs s (gdf_clean e) = cleaned ns input"
    by auto
  have "length ns = length (rows input)"
    using astype_int_length [OF ns] by simp
  then have "map geom (rows (objs s (gdf_clean e))) = map geom (rows input)"
    unfolding c by (rule geom_cleaned)
  then show ?thesis
    unfolding split_rows [OF assms] by simp
qed

theorem subsets_keep_order_witness:
  "\<exists>s e. split_script demo_to_int demo_input = Inr (s, e)
     \<and> map geom (rows (objs s (gdf_clean e))) = [1, 2, 3]
     \<and> map geom (rows (objs s (block6_gdf e))) = [2, 3]
     \<and> map geom (rows (objs s (other_gdf e))) = [1]
     \<and> rows (objs s (block6_gdf e)) = filter in_block6 (rows (objs s (gdf_clean e)))
     \<and> rows (objs s (other_gdf e)) = filter (\<lambda>r. \<not> in_block6 r) (rows (objs s (gdf_clean e)))
     \<and> subseq (rows (objs s (block6_gdf e))) (rows (objs s (gdf_clean e)))
     \<and> subseq (rows (objs s (other_gdf e))) (rows (objs s (gdf_clean e)))"
proof -
  from demo_split obtain s e where h: "split_script demo_to_int demo_input = Inr (s, e)"
    and g: "map geom (rows (objs s (gdf_clean e))) = [1, 2, 3]"
       "map geom (rows (objs s (block6_gdf e))) = [2, 3]"
       "map geom (rows (objs s (other_gdf e))) = [1]"
    by auto
  from subsets_keep_order [OF h] h g show ?thesis by auto
qed

text \<open>
  Claim C3, as amended. For a collection of wards with distinct identifiers which are the
  numbers 1 to 600 except two of the six identifiers of Block 6, the collection has 598
  records, the highlighted subset has exactly the four records of the identifiers of
  Block 6 that are present, and the context subset has the remaining 594 records.
\<close>

theorem four_of_six_present:
  assumes "''Ward_No'' \<in> set (columns input)"
    and "astype_int to_int (map (cell ''Ward_No'') (rows input)) = Inr ids"
    and "distinct ids" and "set ids = {1..600} - A" and "A \<subseteq> set block6_wards"
    and "card A = 2"
  shows "\<exists>s e. split_script to_int input = Inr (s, e)
      \<and> length (rows (objs s (block6_gdf e))) = 4
      \<and> (\<lambda>r. attrs r ''Ward_No'') ` set (rows (objs s (block6_gdf e)))
          = (\<lambda>n. Some (IntV n)) ` (set block6_wards - A)
      \<and> length (rows (objs s (other_gdf e))) = 594
      \<and> length (rows (objs s (gdf_clean e))) = 598"
proof -
  from split_wards [OF assms(1,2)] obtain s e
    where h: "split_script to_int input = Inr (s, e)"
      and b: "map (\<lambda>r. attrs r ''Ward_No'') (rows (objs s (block6_gdf e)))
          = map (\<lambda>n. Some (IntV n)) (filter (\<lambda>n. n \<in> set block6_wards) ids)"
      and t: "map (\<lambda>r. attrs r ''Ward_No'') (rows (objs s (other_gdf e)))
          = map (\<lambda>n. Some (IntV n)) (filter (\<lambda>n. n \<notin> set block6_wards) ids)"
    by blast
  note c = scenario_counts [OF assms(3-6)]
  from b have "length (rows (objs s (block6_gdf e))) = length (filter (\<lambda>n. n \<in> set block6_wards) ids)"
    by (metis length_map)
  with c(2) have l1: "length (rows (objs s (block6_gdf e))) = 4" by simp
  from t have "length (rows (objs s (other_gdf e))) = length (filter (\<lambda>n. n \<notin> set block6_wards) ids)"
    by (metis length_map)
  with c(3) have l2: "length (rows (objs s (other_gdf e))) = 594" by simp
  have "(\<lambda>r. attrs r ''Ward_No'') ` set (rows (objs s (block6_gdf e)))
          = set (map (\<lambda>r. attrs r ''Ward_No'') (rows (objs s (block6_gdf e))))"
    by simp
  also have "\<dots> = (\<lambda>n. Some (IntV n)) ` (set block6_wards - A)"
    unfolding b using c(1) by (metis set_map)
  finally have i: "(\<lambda>r. attrs r ''Ward_No'') ` set (rows (objs s (block6_gdf e)))
          = (\<lambda>n. Some (IntV n)) ` (set block6_wards - A)" .
  have "length (rows (objs s (block6_gdf e))) + length (rows (objs s (other_gdf e)))
          = length (rows (objs s (gdf_clean e)))"
    unfolding split_rows [OF h] by (rule sum_length_filter_compl)
  with l1 l2 have "length (rows (objs s (gdf_clean e))) = 598" by simp
  with h l1 l2 i show ?thesis by blast
qed

text \<open>
  On the collection of wards 1 to 600 without wards 433 and 434.
\<close>

theorem four_of_six_present_witness:
  "\<exists>s e. split_script scenario_to_int scenario_input = Inr (s, e)
      \<and> length (rows (objs s (block6_gdf e))) = 4
      \<and> (\<lambda>r. attrs r ''Ward_No'') ` set (rows (objs s (block6_gdf e)))
          = (\<lambda>n. Some (IntV n)) ` (set block6_wards - {433, 434})
      \<and> length (rows (objs s (other_gdf e))) = 594
      \<and> length (rows (objs s (gdf_clean e))) = 598"
  using four_of_six_present [OF scenario_facts] .

text \<open>
  The claim as it was stated gives the context subset 596 records. On the collection of
  wards 1 to 600 without wards 433 and 434 the script leaves 594 records in it.
\<close>

theorem context_is_594_not_596:
  "subset_sizes scenario_to_int scenario_input = Inr (4, 594)
   \<and> subset_sizes scenario_to_int scenario_input \<noteq> Inr (4, 596)"
proof -
  from split_wards [OF scenario_facts(1,2)] obtain s e
    where h: "split_script scenario_to_int scenario_input = Inr (s, e)"
      and b: "map (\<lambda>r. attrs r ''Ward_No'') (rows (objs s (block6_gdf e)))
          = map (\<lambda>n. Some (IntV n)) (filter (\<lambda>n. n \<in> set block6_wards) scenario_ids)"
      and t: "map (\<lambda>r. attrs r ''Ward_No'') (rows (objs s (other_gdf e)))
          = map (\<lambda>n. Some (IntV n)) (filter (\<lambda>n. n \<notin> set block6_wards) scenario_ids)"
    by blast
  note c = scenario_counts [OF scenario_facts(3-6)]
  from b c(2) have "length (rows (objs s (block6_gdf e))) = 4" by (metis length_map)
  moreover from t c(3) have "length (rows (objs s (other_gdf e))) = 594" by (metis length_map)
  ultimately show ?thesis using h by (simp add: subset_sizes_def)
qed

section \<open>The Cleaner\<close>





text \<open>
  Claim C9, as amended. The cleanup works on a copy of the loaded collection (line 17):
  the object in \<open>gdf_clean\<close> after line 26 is another object than the one the Loader
  returned, the Loader's object is as it was, and it is the object in \<open>gdf_clean\<close>
  that has integer identifiers and the column \<open>Population\<close>.
\<close>

theorem cleanup_on_copy:
  assumes "cleaner to_int s a = Inr (s', c)" and "a < fresh s"
  shows "c \<noteq> a \<and> objs s' a = objs s a
       \<and> (\<forall>r\<in>set (rows (objs s' c)). \<exists>n. attrs r ''Ward_No'' = Some (IntV n))
       \<and> ''Population'' \<in> set (columns (objs s' c))"
proof -
  from cleaner_Inr [OF assms(1)] obtain ns
    where ns: "astype_int to_int (map (cell ''Ward_No'') (rows (objs s a))) = Inr ns"
      and c: "objs s' c = cleaned ns (objs s a)"
      and f: "fresh s \<le> c" "\<forall>x<fresh s. objs s' x = objs s x"
    by auto
  have n: "length ns = length (rows (objs s a))"
    using astype_int_length [OF ns] by simp
  have "''Population'' \<in> set (columns (cleaned ns (objs s a)))"
  proof (cases "''SUM_Final_'' \<in> set (columns (objs s a))")
    case True
    from cleaner_Inr [OF assms(1)] have w: "''Ward_No'' \<in> set (columns (objs s a))"
      by auto
    from True show ?thesis
      unfolding cleaned_population_renamed(1) [OF True n w] by force
  next
    case False
    then show ?thesis by (rule cleaned_population_null(1))
  qed
  with assms(2) f c ward_cleaned_IntV [OF n] show ?thesis by auto
qed

theorem cleanup_on_copy_witness:
  "\<exists>s' c. cleaner demo_to_int (fst (load demo_input)) (snd (load demo_input)) = Inr (s', c)
     \<and> c \<noteq> snd (load demo_input)
     \<and> objs s' (snd (load demo_input)) = demo_input
     \<and> (\<forall>r\<in>set (rows (objs s' c)). \<exists>n. attrs r ''Ward_No'' = Some (IntV n))
     \<and> ''Population'' \<in> set (columns (objs s' c))"
proof -
  obtain s' c
    where h: "cleaner demo_to_int (fst (load demo_input)) (snd (load demo_input)) = Inr (s', c)"
    using cleaner_total [of "fst (load demo_input)" "snd (load demo_input)" demo_to_int]
      demo_column by (auto simp: demo_loaded)
  from cleanup_on_copy [OF h demo_loaded(2)] h show ?thesis
    by (auto simp: demo_loaded)
qed

text \<open>
  The claim as it was stated has the Loader's own object carry the integer identifiers and
  the column \<open>Population\<close>. On the example, the Loader's object after the cleanup is
  the loaded frame itself: its columns are \<open>Ward_No\<close> and \<open>SUM_Final_\<close>, and two
  of its identifiers are still text.
\<close>

theorem loader_object_unchanged:
  "loader_object_after_cleanup demo_to_int demo_input = Inr demo_input
   \<and> columns demo_input = [''Ward_No'', ''SUM_Final_'']
   \<and> map (cell ''Ward_No'') (rows demo_input) = [Raw ''428'', IntV 429, Raw ''430'']"
proof -
  have "loader_object_after_cleanup demo_to_int demo_input = Inr demo_input"
    using demo_column demo_bare_column(4)
    by (simp add: loader_object_after_cleanup_def load_def alloc_def cleaner_eq)
  then show ?thesis
    by (simp add: demo_input_def demo_row_def cell_def)
qed

section \<open>The Projector\<close>

text \<open>
  Claim C4. Running lines 38 to 41 a second time changes nothing: the store and the
  variables are the ones the first run left, whatever the transformation between two
  systems does to a geometry. The same holds of \<open>to_crs\<close> itself. When the CRS of
  \<open>gdf_clean\<close> already has the EPSG code 4326, lines 38 to 41 change nothing at all.
\<close>

theorem reprojection_idempotent:
  "(projector tr s e = Inr (s', e') \<longrightarrow> projector tr s' e' = Inr (s', e'))
   \<and> (to_crs tr 4326 g = Inr g' \<longrightarrow> to_crs tr 4326 g' = Inr g')
   \<and> (crs (objs s (gdf_clean e)) = Some c \<and> to_epsg c = Some 4326
        \<longrightarrow> projector tr s e = Inr (s, e))"
proof (intro conjI impI)
  assume h: "projector tr s e = Inr (s', e')"
  show "projector tr s' e' = Inr (s', e')"
  proof (cases "needs_reprojection (objs s (gdf_clean e))")
    case False
    with h show ?thesis by (simp add: projector_noop)
  next
    case True
    from projector_reprojects [OF True h]
    have "to_crs tr 4326 (objs s (gdf_clean e)) = Inr (objs s' (gdf_clean e'))" by simp
    then have "crs (objs s' (gdf_clean e')) = Some (EPSG 4326)" by (rule to_crs_Inr(1))
    then show ?thesis by (simp add: projector_noop needs_reprojection_target)
  qed
next
  assume "to_crs tr 4326 g = Inr g'"
  then show "to_crs tr 4326 g' = Inr g'" by (rule to_crs_idem)
next
  assume "crs (objs s (gdf_clean e)) = Some c \<and> to_epsg c = Some 4326"
  then show "projector tr s e = Inr (s, e)"
    by (simp add: projector_noop needs_reprojection_def)
qed

text \<open>
  On the example in EPSG:32735, which is reprojected once and then left alone, and on the
  example that is in WGS 84 from the start.
\<close>

theorem reprojection_idempotent_witness:
  "(\<exists>s e s' e'. split_script demo_to_int demo_input = Inr (s, e)
       \<and> projector demo_tr s e = Inr (s', e')
       \<and> projector demo_tr s' e' = Inr (s', e'))
   \<and> to_crs demo_tr 4326 demo_input
       = Inr (demo_input\<lparr>rows := map (\<lambda>r. r\<lparr>geom := geom r + 1000\<rparr>) (rows demo_input),
                         crs := Some (EPSG 4326)\<rparr>)
   \<and> to_crs demo_tr 4326 (demo_input\<lparr>rows := map (\<lambda>r. r\<lparr>geom := geom r + 1000\<rparr>) (rows demo_input),
                                      crs := Some (EPSG 4326)\<rparr>)
       = Inr (demo_input\<lparr>rows := map (\<lambda>r. r\<lparr>geom := geom r + 1000\<rparr>) (rows demo_input),
                         crs := Some (EPSG 4326)\<rparr>)
   \<and> (\<exists>s e. split_script demo_to_int demo_wgs_input = Inr (s, e)
       \<and> projector demo_tr s e = Inr (s, e))"
proof (intro conjI)
  obtain s e where h: "split_script demo_to_int demo_input = Inr (s, e)"
    using split_script_total [OF demo_column] by blast
  have c: "crs demo_input = Some (EPSG 32735)" by (simp add: demo_input_def)
  from split_script_Inr [OF h]
  have "gdf_clean e < fresh s" "block6_gdf e < fresh s" "other_gdf e < fresh s" by auto
  with projector_total [of s e "EPSG 32735" demo_tr] split_script_crs [OF h] c
  obtain s' e' where p: "projector demo_tr s e = Inr (s', e')" by auto
  from reprojection_idempotent [of demo_tr s e s' e' demo_input demo_input "EPSG 4326"] p
  have "projector demo_tr s' e' = Inr (s', e')" by simp
  with h p show "\<exists>s e s' e'. split_script demo_to_int demo_input = Inr (s, e)
       \<and> projector demo_tr s e = Inr (s', e')
       \<and> projector demo_tr s' e' = Inr (s', e')" by blast
next
  show t: "to_crs demo_tr 4326 demo_input
       = Inr (demo_input\<lparr>rows := map (\<lambda>r. r\<lparr>geom := geom r + 1000\<rparr>) (rows demo_input),
                         crs := Some (EPSG 4326)\<rparr>)"
    by (simp add: to_crs_def demo_input_def demo_tr_def)
  from reprojection_idempotent [of demo_tr "fst (load demo_input)" "\<lparr>gdf = 0, gdf_clean = 0, block6_gdf = 0, other_gdf = 0\<rparr>"
      "fst (load demo_input)" "\<lparr>gdf = 0, gdf_clean = 0, block6_gdf = 0, other_gdf = 0\<rparr>" demo_input
      "demo_input\<lparr>rows := map (\<lambda>r. r\<lparr>geom := geom r + 1000\<rparr>) (rows demo_input),
                         crs := Some (EPSG 4326)\<rparr>" "EPSG 4326"] t
  show "to_crs demo_tr 4326 (demo_input\<lparr>rows := map (\<lambda>r. r\<lparr>geom := geom r + 1000\<rparr>) (rows demo_input),
                                      crs := Some (EPSG 4326)\<rparr>)
       = Inr (demo_input\<lparr>rows := map (\<lambda>r. r\<lparr>geom := geom r + 1000\<rparr>) (rows demo_input),
                         crs := Some (EPSG 4326)\<rparr>)"
    by simp
next
  have "''Ward_No'' \<in> set (columns demo_wgs_input)"
    and "astype_int demo_to_int (map (cell ''Ward_No'') (rows demo_wgs_input)) = Inr [428, 429, 430]"
    using demo_column by (simp_all add: demo_wgs_input_def)
  then obtain s e where h: "split_script demo_to_int demo_wgs_input = Inr (s, e)"
    using split_script_total by blast
  have "crs (objs s (gdf_clean e)) = Some (OtherCRS ''GEOGCS[WGS 84]'' (Some 4326))"
    by (simp add: split_script_crs [OF h] demo_wgs_input_def)
  with reprojection_idempotent [of demo_tr s e s e demo_input demo_input "OtherCRS ''GEOGCS[WGS 84]'' (Some 4326)"]
  have "projector demo_tr s e = Inr (s, e)" by simp
  with h show "\<exists>s e. split_script demo_to_int demo_wgs_input = Inr (s, e)
       \<and> projector demo_tr s e = Inr (s, e)" by blast
qed

text \<open>
  Claim C5, at a collection without a CRS. The test of line 38 sends it to the three
  reprojections, and the first of them, line 39, raises: nothing is reprojected, and the
  run ends there without writing a file.
\<close>

theorem undefined_crs_run_fails:
  "needs_reprojection demo_naive_input
   \<and> ward_map demo_to_int demo_tr demo_cen demo_ok demo_naive_input = (Some NaiveGeometryError, [])"
proof -
  from demo_naive_split obtain s e
    where h: "split_script demo_to_int demo_naive_input = Inr (s, e)"
      and c: "crs (objs s (gdf_clean e)) = None"
    by blast
  have "projector demo_tr s e = Inl NaiveGeometryError"
    using c by (rule projector_undefined)
  with h show ?thesis
    by (simp add: ward_map_def prepare_def needs_reprojection_def demo_naive_input_def)
qed

section \<open>The Renderer\<close>



end
